theory Spec2Isabelle
  imports Main "HOL-Library.Multiset"
begin

section \<open>Data model of \<open>src/js/bookmarks.js\<close>\<close>

text \<open>
  A node of the host bookmark tree, as \<open>chrome.bookmarks.getTree()\<close> delivers it:
  \<open>id\<close> and \<open>title\<close> are always strings, \<open>url\<close>, \<open>parentId\<close> and \<open>children\<close> are
  optional properties (\<open>None\<close> is JavaScript's \<open>undefined\<close>).
\<close>

datatype BookmarkNode = BookmarkNode
  (node_id: string)
  (node_title: string)
  (node_url: "string option")
  (node_parentId: "string option")
  (node_children: "BookmarkNode list option")

text \<open>The object literal \<open>{id, title, url, parentId}\<close> pushed for a bookmark.\<close>

record FlatBookmark =
  bm_id :: string
  bm_title :: string
  bm_url :: "string option"
  bm_parentId :: "string option"

text \<open>The object literal \<open>{id, title, children, parentId}\<close> pushed for a folder.\<close>

record FlatFolder =
  fd_id :: string
  fd_title :: string
  fd_children :: "FlatBookmark list"
  fd_parentId :: "string option"

text \<open>
  The fields of \<open>class BookmarkManager\<close>, together with the part of the host the class
  writes to: \<open>storage_set_calls\<close> lists, oldest first, the argument of every
  \<open>chrome.storage.local.set\<close> call issued so far, as a key and the value stored under it.
\<close>

record BookmarkManager =
  chromeBookmarks :: "FlatBookmark list"
  folders :: "FlatFolder list"
  favorites :: "FlatBookmark list"
  storage_set_calls :: "(string \<times> FlatBookmark list) list"

section \<open>JavaScript primitives used by the class\<close>

text \<open>Truthiness of an optional string: \<open>undefined\<close> and the empty string are falsy.\<close>

fun truthy :: "string option \<Rightarrow> bool" where
  "truthy None = False"
| "truthy (Some s) = (s \<noteq> [])"

text \<open>\<open>Array.prototype.findIndex\<close>; \<open>None\<close> stands for the result \<open>-1\<close>.\<close>

fun findIndex :: "('a \<Rightarrow> bool) \<Rightarrow> 'a list \<Rightarrow> nat option" where
  "findIndex P [] = None"
| "findIndex P (x # xs) =
     (if P x then Some 0 else map_option Suc (findIndex P xs))"

text \<open>
  \<open>Array.prototype.splice(start, deleteCount, ...items)\<close> for a non-negative \<open>start\<close>:
  the removed elements and the array afterwards. A \<open>start\<close> beyond the end is clamped
  to the length, which \<open>take\<close> and \<open>drop\<close> do by themselves.
\<close>

definition array_splice :: "nat \<Rightarrow> nat \<Rightarrow> 'a list \<Rightarrow> 'a list \<Rightarrow> 'a list \<times> 'a list" where
  "array_splice start deleteCount items xs =
     (take deleteCount (drop start xs),
      take start xs @ items @ drop (start + deleteCount) xs)"

text \<open>
  \<open>Array.prototype.sort(compareFn)\<close>. ECMAScript requires the sort to be stable and, for
  a consistent comparator, to order the array by it; insertion from the right is the
  simplest function with that result. \<open>compareFn a b \<le> 0\<close> keeps \<open>a\<close> in front of \<open>b\<close>.
\<close>

fun sort_insert :: "('a \<Rightarrow> 'a \<Rightarrow> int) \<Rightarrow> 'a \<Rightarrow> 'a list \<Rightarrow> 'a list" where
  "sort_insert compareFn x [] = [x]"
| "sort_insert compareFn x (y # ys) =
     (if compareFn x y \<le> 0 then x # y # ys else y # sort_insert compareFn x ys)"

fun array_sort :: "('a \<Rightarrow> 'a \<Rightarrow> int) \<Rightarrow> 'a list \<Rightarrow> 'a list" where
  "array_sort compareFn [] = []"
| "array_sort compareFn (x # xs) = sort_insert compareFn x (array_sort compareFn xs)"

section \<open>Flattening the bookmark tree\<close>

definition reserved_root_ids :: "string list" where
  "reserved_root_ids = [''0'', ''1'', ''2'']"

text \<open>
  \<open>collectBookmarksFromFolder(children, bookmarksArray)\<close>: the \<open>forEach\<close> loop is the
  recursion over the list, \<open>collect_child\<close> is the loop body. The body tests \<open>child.url\<close>
  first and \<open>child.children\<close> second. The array argument is returned updated.
\<close>

fun collectBookmarksFromFolder :: "BookmarkNode list \<Rightarrow> FlatBookmark list \<Rightarrow> FlatBookmark list"
  and collect_child :: "BookmarkNode \<Rightarrow> FlatBookmark list \<Rightarrow> FlatBookmark list" where
  "collectBookmarksFromFolder [] bookmarksArray = bookmarksArray"
| "collectBookmarksFromFolder (child # rest) bookmarksArray =
     collectBookmarksFromFolder rest (collect_child child bookmarksArray)"
| "collect_child (BookmarkNode i t u p ch) bookmarksArray =
     (if truthy u then
        bookmarksArray @ [\<lparr>bm_id = i, bm_title = t, bm_url = u, bm_parentId = p\<rparr>]
      else (case ch of
              Some cs \<Rightarrow> collectBookmarksFromFolder cs bookmarksArray
            | None \<Rightarrow> bookmarksArray))"

text \<open>
  \<open>traverseBookmarksTree(nodes)\<close>: again the list recursion is the \<open>forEach\<close> loop and
  \<open>traverse_node\<close> its body, which tests \<open>node.children\<close> first (an empty array is
  truthy) and \<open>node.url\<close> second. The pushes to \<open>this.folders\<close> and
  \<open>this.chromeBookmarks\<close> update the manager that is passed through.
\<close>

fun traverseBookmarksTree :: "BookmarkNode list \<Rightarrow> BookmarkManager \<Rightarrow> BookmarkManager"
  and traverse_node :: "BookmarkNode \<Rightarrow> BookmarkManager \<Rightarrow> BookmarkManager" where
  "traverseBookmarksTree [] s = s"
| "traverseBookmarksTree (node # rest) s = traverseBookmarksTree rest (traverse_node node s)"
| "traverse_node (BookmarkNode i t u p ch) s =
     (case ch of
        Some cs \<Rightarrow>
          traverseBookmarksTree cs
            (if t \<noteq> [] \<and> i \<notin> set reserved_root_ids then
               s\<lparr>folders := folders s @
                    [\<lparr>fd_id = i, fd_title = t,
                      fd_children = collectBookmarksFromFolder cs [],
                      fd_parentId = p\<rparr>]\<rparr>
             else s)
      | None \<Rightarrow>
          (if truthy u then
             s\<lparr>chromeBookmarks := chromeBookmarks s @
                  [\<lparr>bm_id = i, bm_title = t, bm_url = u, bm_parentId = p\<rparr>]\<rparr>
           else s))"

text \<open>
  \<open>loadChromeBookmarks()\<close>. The two things the host supplies are parameters: the result
  of \<open>chrome.bookmarks.getTree()\<close> (\<open>None\<close> when the promise is rejected, which the
  \<open>catch\<close> block turns into leaving the manager as it was) and \<open>String.localeCompare\<close>.
\<close>

definition loadChromeBookmarks ::
  "(string \<Rightarrow> string \<Rightarrow> int) \<Rightarrow> BookmarkNode list option \<Rightarrow> BookmarkManager \<Rightarrow> BookmarkManager" where
  "loadChromeBookmarks localeCompare getTree s =
     (case getTree of
        None \<Rightarrow> s
      | Some bookmarkTree \<Rightarrow>
          (let s1 = traverseBookmarksTree bookmarkTree (s\<lparr>chromeBookmarks := [], folders := []\<rparr>)
           in s1\<lparr>folders :=
                  array_sort (\<lambda>a b. localeCompare (fd_title a) (fd_title b)) (folders s1)\<rparr>))"

section \<open>The favorites list\<close>

definition favorites_key :: string where
  "favorites_key = ''favoriteBookmarks''"

text \<open>
  \<open>saveFavorites()\<close> runs up to its \<open>await\<close> inside the caller, so the call of
  \<open>chrome.storage.local.set({favoriteBookmarks: this.favorites})\<close> is issued at once, with
  the whole array as the value.
\<close>

definition saveFavorites :: "BookmarkManager \<Rightarrow> BookmarkManager" where
  "saveFavorites s =
     s\<lparr>storage_set_calls := storage_set_calls s @ [(favorites_key, favorites s)]\<rparr>"

definition toggleFavorite :: "string \<Rightarrow> BookmarkManager \<Rightarrow> BookmarkManager" where
  "toggleFavorite bookmarkId s =
     (case find (\<lambda>b. bm_id b = bookmarkId) (chromeBookmarks s) of
        None \<Rightarrow> s
      | Some bookmark \<Rightarrow>
          saveFavorites
            (case findIndex (\<lambda>b. bm_id b = bookmarkId) (favorites s) of
               Some favoriteIndex \<Rightarrow>
                 s\<lparr>favorites := snd (array_splice favoriteIndex 1 [] (favorites s))\<rparr>
             | None \<Rightarrow> s\<lparr>favorites := favorites s @ [bookmark]\<rparr>))"

definition addToFavorites :: "FlatBookmark \<Rightarrow> BookmarkManager \<Rightarrow> BookmarkManager" where
  "addToFavorites bookmark s =
     (let exists = list_ex (\<lambda>fav. bm_id fav = bm_id bookmark) (favorites s)
      in if \<not> exists then saveFavorites (s\<lparr>favorites := favorites s @ [bookmark]\<rparr>)
         else s)"

definition removeFromFavorites :: "string \<Rightarrow> BookmarkManager \<Rightarrow> BookmarkManager" where
  "removeFromFavorites bookmarkId s =
     (case findIndex (\<lambda>b. bm_id b = bookmarkId) (favorites s) of
        Some index \<Rightarrow> saveFavorites (s\<lparr>favorites := snd (array_splice index 1 [] (favorites s))\<rparr>)
      | None \<Rightarrow> s)"

text \<open>
  \<open>reorderFavorite(draggedId, targetId)\<close>. Both indices are read before the array is
  changed. The destructuring \<open>const [draggedItem] = ...\<close> takes the first removed
  element; \<open>draggedIndex\<close> is an index of the array, so one element is always removed
  (lemma \<open>splice_found_removed\<close>) and the empty case below is never taken.
\<close>

definition reorderFavorite :: "string \<Rightarrow> string \<Rightarrow> BookmarkManager \<Rightarrow> BookmarkManager" where
  "reorderFavorite draggedId targetId s =
     (case (findIndex (\<lambda>b. bm_id b = draggedId) (favorites s),
            findIndex (\<lambda>b. bm_id b = targetId) (favorites s)) of
        (Some draggedIndex, Some targetIndex) \<Rightarrow>
          (case array_splice draggedIndex 1 [] (favorites s) of
             (draggedItem # _, favorites1) \<Rightarrow>
               saveFavorites
                 (s\<lparr>favorites := snd (array_splice targetIndex 0 [draggedItem] favorites1)\<rparr>)
           | ([], _) \<Rightarrow> s)
      | _ \<Rightarrow> s)"

definition isFavorite :: "string \<Rightarrow> BookmarkManager \<Rightarrow> bool" where
  "isFavorite bookmarkId s = list_ex (\<lambda>fav. bm_id fav = bookmarkId) (favorites s)"

section \<open>Vocabulary of the specification\<close>

text \<open>
  The nodes of a forest in depth-first pre-order: a node, then the nodes below its first
  child, then those below its second child, and so on. Every node of the forest occurs
  in the list once for each place it has in the forest.
\<close>

fun preorder :: "BookmarkNode list \<Rightarrow> BookmarkNode list"
  and preorder_node :: "BookmarkNode \<Rightarrow> BookmarkNode list" where
  "preorder [] = []"
| "preorder (n # ns) = preorder_node n @ preorder ns"
| "preorder_node (BookmarkNode i t u p ch) =
     BookmarkNode i t u p ch # (case ch of Some cs \<Rightarrow> preorder cs | None \<Rightarrow> [])"

text \<open>The nodes strictly below a node, in pre-order.\<close>

definition descendants :: "BookmarkNode \<Rightarrow> BookmarkNode list" where
  "descendants n = (case node_children n of Some cs \<Rightarrow> preorder cs | None \<Rightarrow> [])"

text \<open>A leaf (a bookmark) has a url and no children; a folder has children.\<close>

definition is_leaf :: "BookmarkNode \<Rightarrow> bool" where
  "is_leaf n = (node_children n = None \<and> truthy (node_url n))"

definition is_folder :: "BookmarkNode \<Rightarrow> bool" where
  "is_folder n = (node_children n \<noteq> None)"

text \<open>A folder that the specification says is emitted: titled, and not a reserved root.\<close>

definition emitted :: "BookmarkNode \<Rightarrow> bool" where
  "emitted n = (is_folder n \<and> node_title n \<noteq> [] \<and> node_id n \<notin> set reserved_root_ids)"

definition toFlatBookmark :: "BookmarkNode \<Rightarrow> FlatBookmark" where
  "toFlatBookmark n =
     \<lparr>bm_id = node_id n, bm_title = node_title n, bm_url = node_url n,
      bm_parentId = node_parentId n\<rparr>"

text \<open>The FlatFolder of the specification: its children are the leaf descendants.\<close>

definition toFlatFolder :: "BookmarkNode \<Rightarrow> FlatFolder" where
  "toFlatFolder n =
     \<lparr>fd_id = node_id n, fd_title = node_title n,
      fd_children = map toFlatBookmark (filter is_leaf (descendants n)),
      fd_parentId = node_parentId n\<rparr>"

text \<open>
  The data model's rule that \<open>url\<close> is present only on leaves: a node that has children
  has no url. The host's tree satisfies it; the datatype above does not enforce it.
\<close>

definition folder_has_no_url :: "BookmarkNode \<Rightarrow> bool" where
  "folder_has_no_url n = (is_folder n \<longrightarrow> \<not> truthy (node_url n))"

text \<open>
  The reorder rule in the specification's words: remove the dragged entry, then insert
  it at the index the target entry occupies after that removal. \<open>None\<close> where the rule
  does not apply (an id is missing, before or after the removal).
\<close>

definition reorder_at_index_after_removal ::
  "string \<Rightarrow> string \<Rightarrow> FlatBookmark list \<Rightarrow> FlatBookmark list option" where
  "reorder_at_index_after_removal draggedId targetId favs =
     (case findIndex (\<lambda>b. bm_id b = draggedId) favs of
        None \<Rightarrow> None
      | Some i \<Rightarrow>
          (let rest = take i favs @ drop (Suc i) favs
           in case findIndex (\<lambda>b. bm_id b = targetId) rest of
                None \<Rightarrow> None
              | Some j \<Rightarrow> Some (take j rest @ [favs ! i] @ drop j rest)))"

text \<open>What an operation on the favorites did to the persisted store.\<close>

definition full_write :: "BookmarkManager \<Rightarrow> BookmarkManager \<Rightarrow> bool" where
  "full_write s s' =
     (storage_set_calls s' = storage_set_calls s @ [(favorites_key, favorites s')])"

text \<open>Concrete data for the scenarios of the specification.\<close>

definition empty_manager :: BookmarkManager where
  "empty_manager = \<lparr>chromeBookmarks = [], folders = [], favorites = [], storage_set_calls = []\<rparr>"

definition bm :: "string \<Rightarrow> FlatBookmark" where
  "bm i = \<lparr>bm_id = i, bm_title = i, bm_url = Some (''https://'' @ i), bm_parentId = Some ''1''\<rparr>"

definition leaf :: "string \<Rightarrow> string \<Rightarrow> string \<Rightarrow> BookmarkNode" where
  "leaf i t p = BookmarkNode i t (Some (''https://'' @ t)) (Some p) None"

definition folder :: "string \<Rightarrow> string \<Rightarrow> string \<Rightarrow> BookmarkNode list \<Rightarrow> BookmarkNode" where
  "folder i t p cs = BookmarkNode i t None (Some p) (Some cs)"

text \<open>
  The scenario tree: the reserved root ``Bookmarks Bar'' holding bookmark A and the
  folder ``Work'', which holds bookmark B.
\<close>

definition scenario_tree :: "BookmarkNode list" where
  "scenario_tree =
     [folder ''1'' ''Bookmarks Bar'' ''0''
        [leaf ''5'' ''A'' ''1'', folder ''6'' ''Work'' ''1'' [leaf ''7'' ''B'' ''6'']]]"

text \<open>A comparison of titles for the examples: by length, so that ties are frequent.\<close>

definition compare_length :: "string \<Rightarrow> string \<Rightarrow> int" where
  "compare_length a b = int (length a) - int (length b)"

text \<open>The object that \<open>traverse_node\<close> pushes to \<open>this.folders\<close> for a folder node.\<close>

definition folder_of :: "BookmarkNode \<Rightarrow> FlatFolder" where
  "folder_of n =
     \<lparr>fd_id = node_id n, fd_title = node_title n,
      fd_children =
        collectBookmarksFromFolder (case node_children n of Some cs \<Rightarrow> cs | None \<Rightarrow> []) [],
      fd_parentId = node_parentId n\<rparr>"

text \<open>The folder list as the traversal leaves it, before it is sorted.\<close>

definition traversal_folders :: "BookmarkNode list \<Rightarrow> BookmarkManager \<Rightarrow> FlatFolder list" where
  "traversal_folders bookmarkTree s =
     folders (traverseBookmarksTree bookmarkTree (s\<lparr>chromeBookmarks := [], folders := []\<rparr>))"

text \<open>A tree whose folder titles tie under \<open>compare_length\<close>.\<close>

definition tie_tree :: "BookmarkNode list" where
  "tie_tree =
     [folder ''1'' ''Bookmarks Bar'' ''0''
        [folder ''10'' ''bb'' ''1'' [], folder ''11'' ''a'' ''1'' [leaf ''20'' ''L'' ''11''],
         folder ''12'' ''cc'' ''1'' [], folder ''13'' ''a'' ''1'' []]]"

section \<open>Facts about the primitives\<close>

lemma findIndex_SomeD:
  "findIndex P xs = Some k \<Longrightarrow> k < length xs \<and> P (xs ! k) \<and> (\<forall>j<k. \<not> P (xs ! j))"
proof (induction xs arbitrary: k)
  case Nil
  then show ?case by simp
next
  case (Cons x xs)
  show ?case
  proof (cases "P x")
    case True
    with Cons.prems show ?thesis by simp
  next
    case False
    with Cons.prems obtain k' where k: "k = Suc k'" "findIndex P xs = Some k'"
      by auto
    from Cons.IH [OF k(2)] False show ?thesis
      by (auto simp: k(1) less_Suc_eq_0_disj)
  qed
qed

lemma findIndex_None_iff: "findIndex P xs = None \<longleftrightarrow> (\<forall>x \<in> set xs. \<not> P x)"
  by (induction xs) auto

lemma splice_one_removed:
  assumes "k < length xs"
  shows "array_splice k 1 [] xs = ([xs ! k], take k xs @ drop (Suc k) xs)"
proof -
  from assms have "drop k xs = xs ! k # drop (Suc k) xs"
    by (simp add: Cons_nth_drop_Suc)
  then show ?thesis by (simp add: array_splice_def)
qed

text \<open>At an index that \<open>findIndex\<close> returned, \<open>splice(index, 1)\<close> removes one element.\<close>

lemma splice_found_removed:
  assumes "findIndex P xs = Some k"
  shows "fst (array_splice k 1 [] xs) = [xs ! k]"
proof -
  from findIndex_SomeD [OF assms] have "k < length xs" by simp
  then show ?thesis by (simp only: splice_one_removed fst_conv)
qed

lemma splice_insert: "snd (array_splice j 0 [x] ys) = take j ys @ [x] @ drop j ys"
  by (simp add: array_splice_def)

lemma remove_found_distinct:
  "distinct (map f xs) \<Longrightarrow> findIndex (\<lambda>b. f b = i) xs = Some k \<Longrightarrow>
   take k xs @ drop (Suc k) xs = filter (\<lambda>b. f b \<noteq> i) xs"
proof (induction xs arbitrary: k)
  case Nil
  then show ?case by simp
next
  case (Cons x xs)
  show ?case
  proof (cases "f x = i")
    case True
    with Cons.prems have "k = 0" by simp
    moreover from Cons.prems(1) have "f x \<notin> f ` set xs" by simp
    with True have "\<forall>y \<in> set xs. f y \<noteq> i" by blast
    ultimately show ?thesis using True by simp
  next
    case False
    with Cons.prems obtain k' where k: "k = Suc k'" "findIndex (\<lambda>b. f b = i) xs = Some k'"
      by auto
    with Cons.IH [of k'] Cons.prems(1) False show ?thesis by simp
  qed
qed

lemma reorderFavorite_found:
  assumes "findIndex (\<lambda>b. bm_id b = d) (favorites s) = Some i"
    and "findIndex (\<lambda>b. bm_id b = t) (favorites s) = Some j"
  shows "reorderFavorite d t s =
     saveFavorites (s\<lparr>favorites :=
        take j (take i (favorites s) @ drop (Suc i) (favorites s)) @ [favorites s ! i] @
        drop j (take i (favorites s) @ drop (Suc i) (favorites s))\<rparr>)"
proof -
  from findIndex_SomeD [OF assms(1)] have "i < length (favorites s)" by simp
  then have sp: "array_splice i (Suc 0) [] (favorites s) =
      ([favorites s ! i], take i (favorites s) @ drop (Suc i) (favorites s))"
    using splice_one_removed [of i "favorites s"] by simp
  show ?thesis
    using assms sp
    by (simp add: reorderFavorite_def splice_insert del: take_append drop_append)
qed

lemma reorderFavorite_missing:
  "findIndex (\<lambda>b. bm_id b = d) (favorites s) = None \<or>
   findIndex (\<lambda>b. bm_id b = t) (favorites s) = None \<Longrightarrow> reorderFavorite d t s = s"
  by (auto simp: reorderFavorite_def split: option.splits)

lemma favorites_saveFavorites [simp]: "favorites (saveFavorites s) = favorites s"
  by (simp add: saveFavorites_def)


section \<open>Reordering the favorites\<close>

lemma move_into_place:
  assumes "i < length xs" and "j < length xs"
  shows "(take j (take i xs @ drop (Suc i) xs) @ [xs ! i] @
          drop j (take i xs @ drop (Suc i) xs)) ! j = xs ! i"
proof -
  have "length (take i xs @ drop (Suc i) xs) = length xs - 1"
    using assms(1) by simp
  with assms have "length (take j (take i xs @ drop (Suc i) xs)) = j"
    by simp
  then show ?thesis
    by (metis append_Cons nth_append_length)
qed

lemma remove_inserted:
  assumes "j \<le> length ys"
  shows "take j (take j ys @ [x] @ drop j ys) @ drop (Suc j) (take j ys @ [x] @ drop j ys) = ys"
  using assms by simp

text \<open>
  C1 (as amended). When both ids are present, at the indices \<open>i\<close> and \<open>j\<close> found before
  anything is changed, \<open>reorderFavorite\<close> removes the dragged entry from index \<open>i\<close> and
  inserts it at index \<open>j\<close>, the index the target occupied before the removal. So the
  dragged entry ends at the target's original index, the other entries keep their
  order, and the target is directly in front of the dragged entry when the drag went
  forward (\<open>i < j\<close>) and directly behind it when the drag went backward (\<open>j < i\<close>).
\<close>

theorem reorderFavorite_inserts_at_original_target_index:
  assumes "findIndex (\<lambda>b. bm_id b = draggedId) (favorites s) = Some i"
    and "findIndex (\<lambda>b. bm_id b = targetId) (favorites s) = Some j"
  shows "favorites (reorderFavorite draggedId targetId s) =
           take j (take i (favorites s) @ drop (Suc i) (favorites s)) @ [favorites s ! i] @
           drop j (take i (favorites s) @ drop (Suc i) (favorites s))
       \<and> length (favorites (reorderFavorite draggedId targetId s)) = length (favorites s)
       \<and> favorites (reorderFavorite draggedId targetId s) ! j = favorites s ! i
       \<and> take j (favorites (reorderFavorite draggedId targetId s)) @
           drop (Suc j) (favorites (reorderFavorite draggedId targetId s)) =
           take i (favorites s) @ drop (Suc i) (favorites s)
       \<and> (i < j \<longrightarrow> favorites (reorderFavorite draggedId targetId s) ! (j - 1) = favorites s ! j)
       \<and> (j < i \<longrightarrow> favorites (reorderFavorite draggedId targetId s) ! (j + 1) = favorites s ! j)"
proof -
  let ?xs = "favorites s"
  let ?rest = "take i ?xs @ drop (Suc i) ?xs"
  let ?ys = "take j ?rest @ [?xs ! i] @ drop j ?rest"
  from findIndex_SomeD [OF assms(1)] have i: "i < length ?xs" by simp
  from findIndex_SomeD [OF assms(2)] have j: "j < length ?xs" by simp
  have res: "favorites (reorderFavorite draggedId targetId s) = ?ys"
    by (simp add: reorderFavorite_found [OF assms])
  have len_rest: "length ?rest = length ?xs - 1"
    using i by simp
  have jr: "j \<le> length ?rest"
    using j len_rest by simp
  have len: "length ?ys = length ?xs"
    using i jr len_rest by (simp del: take_append drop_append)
  have at_j: "?ys ! j = ?xs ! i"
    using i j by (rule move_into_place)
  have others: "take j ?ys @ drop (Suc j) ?ys = ?rest"
    using jr by (rule remove_inserted)
  have fwd: "?ys ! (j - 1) = ?xs ! j" if "i < j"
  proof -
    from that j have "j - 1 < length (take j ?rest)"
      using len_rest by simp
    then have "?ys ! (j - 1) = take j ?rest ! (j - 1)"
      by (simp only: nth_append if_True)
    also have "\<dots> = ?rest ! (j - 1)"
      using that by (intro nth_take) simp
    also have "\<dots> = drop (Suc i) ?xs ! (j - 1 - i)"
      using that i by (simp add: nth_append)
    also have "\<dots> = ?xs ! j"
      using that j by simp
    finally show ?thesis .
  qed
  have bwd: "?ys ! (j + 1) = ?xs ! j" if "j < i"
  proof -
    have lt: "length (take j ?rest) = j"
      using jr by simp
    have "?ys ! (j + 1) = ([?xs ! i] @ drop j ?rest) ! 1"
      using lt by (metis add_diff_cancel_left' nth_append not_add_less1)
    also have "\<dots> = drop j ?rest ! 0"
      by simp
    also have "\<dots> = ?rest ! j"
      using that i len_rest by (simp del: take_append drop_append)
    also have "\<dots> = ?xs ! j"
      using that i by (simp add: nth_append)
    finally show ?thesis .
  qed
  show ?thesis
    unfolding res using len at_j others fwd bwd by blast
qed

text \<open>The scenario of the specification: \<open>[X, Y, Z]\<close>, \<open>reorder(X, Z)\<close> gives \<open>[Y, Z, X]\<close>.\<close>

theorem reorderFavorite_scenario:
  "findIndex (\<lambda>b. bm_id b = ''X'') [bm ''X'', bm ''Y'', bm ''Z''] = Some 0
 \<and> findIndex (\<lambda>b. bm_id b = ''Z'') [bm ''X'', bm ''Y'', bm ''Z''] = Some 2
 \<and> favorites (reorderFavorite ''X'' ''Z''
       (empty_manager\<lparr>favorites := [bm ''X'', bm ''Y'', bm ''Z'']\<rparr>))
     = [bm ''Y'', bm ''Z'', bm ''X'']"
proof -
  let ?s = "empty_manager\<lparr>favorites := [bm ''X'', bm ''Y'', bm ''Z'']\<rparr>"
  have i: "findIndex (\<lambda>b. bm_id b = ''X'') (favorites ?s) = Some 0"
    by (simp add: bm_def)
  have j: "findIndex (\<lambda>b. bm_id b = ''Z'') (favorites ?s) = Some 2"
    by (simp add: bm_def)
  from reorderFavorite_inserts_at_original_target_index [OF i j]
  have "favorites (reorderFavorite ''X'' ''Z'' ?s) = [bm ''Y'', bm ''Z'', bm ''X'']"
    by simp
  with i j show ?thesis by simp
qed

text \<open>
  C1 as stated fails on its own scenario: after \<open>X\<close> is removed from \<open>[X, Y, Z]\<close> the
  target \<open>Z\<close> occupies index 1, and inserting there would give \<open>[Y, X, Z]\<close>, while the
  code gives \<open>[Y, Z, X]\<close>.
\<close>

theorem reorderFavorite_not_at_index_after_removal:
  "reorder_at_index_after_removal ''X'' ''Z'' [bm ''X'', bm ''Y'', bm ''Z'']
     = Some [bm ''Y'', bm ''X'', bm ''Z'']
 \<and> Some (favorites (reorderFavorite ''X'' ''Z''
       (empty_manager\<lparr>favorites := [bm ''X'', bm ''Y'', bm ''Z'']\<rparr>)))
     \<noteq> reorder_at_index_after_removal ''X'' ''Z'' [bm ''X'', bm ''Y'', bm ''Z'']"
  by (simp add: reorder_at_index_after_removal_def reorderFavorite_def array_splice_def
      empty_manager_def bm_def)

section \<open>Toggle, add and remove\<close>

lemma findIndex_append_new:
  "\<forall>x \<in> set xs. \<not> P x \<Longrightarrow> P y \<Longrightarrow> findIndex P (xs @ [y]) = Some (length xs)"
  by (induction xs) auto

lemma find_id_SomeD:
  "find (\<lambda>b. bm_id b = i) bs = Some b \<Longrightarrow> bm_id b = i \<and> b \<in> set bs"
  by (auto simp: find_Some_iff)

lemma toggleFavorite_unknown:
  "find (\<lambda>b. bm_id b = i) (chromeBookmarks s) = None \<Longrightarrow> toggleFavorite i s = s"
  by (simp add: toggleFavorite_def)

lemma toggleFavorite_favorites:
  assumes "find (\<lambda>b. bm_id b = i) (chromeBookmarks s) = Some b"
  shows "favorites (toggleFavorite i s) =
     (case findIndex (\<lambda>b. bm_id b = i) (favorites s) of
        Some k \<Rightarrow> take k (favorites s) @ drop (Suc k) (favorites s)
      | None \<Rightarrow> favorites s @ [b])"
  using assms by (simp add: toggleFavorite_def array_splice_def split: option.splits)

lemma toggleFavorite_chromeBookmarks:
  "chromeBookmarks (toggleFavorite i s) = chromeBookmarks s"
  by (simp add: toggleFavorite_def saveFavorites_def split: option.splits)

lemma isFavorite_iff: "isFavorite i s \<longleftrightarrow> i \<in> bm_id ` set (favorites s)"
  by (auto simp: isFavorite_def list_ex_iff)

lemma findIndex_id_None_iff:
  "findIndex (\<lambda>b. bm_id b = i) (favorites s) = None \<longleftrightarrow> \<not> isFavorite i s"
  by (auto simp: findIndex_None_iff isFavorite_iff)

lemma toggleFavorite_absent:
  assumes "find (\<lambda>b. bm_id b = i) (chromeBookmarks s) = Some b" and "\<not> isFavorite i s"
  shows "favorites (toggleFavorite i s) = favorites s @ [b]"
  using assms by (simp add: toggleFavorite_favorites findIndex_id_None_iff [symmetric])

lemma toggleFavorite_present:
  assumes "find (\<lambda>b. bm_id b = i) (chromeBookmarks s) = Some b" and "isFavorite i s"
    and "distinct (map bm_id (favorites s))"
  shows "favorites (toggleFavorite i s) = filter (\<lambda>b. bm_id b \<noteq> i) (favorites s)"
proof -
  from assms(2) obtain k where k: "findIndex (\<lambda>b. bm_id b = i) (favorites s) = Some k"
    using findIndex_id_None_iff [of i s] by auto
  with assms(1) have "favorites (toggleFavorite i s) = take k (favorites s) @ drop (Suc k) (favorites s)"
    by (simp add: toggleFavorite_favorites)
  with remove_found_distinct [OF assms(3) k] show ?thesis by simp
qed

lemma toggleFavorite_remove_last:
  assumes "find (\<lambda>b. bm_id b = i) (chromeBookmarks s) = Some b"
    and "favorites s = xs @ [b]" and "i \<notin> bm_id ` set xs"
  shows "favorites (toggleFavorite i s) = xs"
proof -
  from assms(3) have "\<forall>x \<in> set xs. \<not> bm_id x = i" by blast
  moreover from find_id_SomeD [OF assms(1)] have "bm_id b = i" by simp
  ultimately have "findIndex (\<lambda>b. bm_id b = i) (xs @ [b]) = Some (length xs)"
    by (rule findIndex_append_new)
  with assms(1,2) show ?thesis
    by (simp add: toggleFavorite_favorites)
qed

text \<open>
  C5. Let \<open>bookmarkId\<close> be known, that is, found in \<open>chromeBookmarks\<close>, and let the
  favorites have distinct ids (the invariant of C10). One toggle flips whether the id is
  a favorite; two toggles restore, for every id, whether it is a favorite. If the id
  was a favorite, the list after two toggles is the old list without that entry,
  followed by the known bookmark: the re-added entry is last, wherever it was before.
  If the id was not a favorite, two toggles give back the list itself.
\<close>

theorem toggleFavorite_twice:
  assumes "find (\<lambda>b. bm_id b = bookmarkId) (chromeBookmarks s) = Some bookmark"
    and "distinct (map bm_id (favorites s))"
  shows "(isFavorite bookmarkId (toggleFavorite bookmarkId s) \<longleftrightarrow> \<not> isFavorite bookmarkId s)
       \<and> (\<forall>i. isFavorite i (toggleFavorite bookmarkId (toggleFavorite bookmarkId s))
               = isFavorite i s)
       \<and> (isFavorite bookmarkId s \<longrightarrow>
            favorites (toggleFavorite bookmarkId (toggleFavorite bookmarkId s)) =
              filter (\<lambda>b. bm_id b \<noteq> bookmarkId) (favorites s) @ [bookmark]
          \<and> last (favorites (toggleFavorite bookmarkId (toggleFavorite bookmarkId s))) = bookmark)
       \<and> (\<not> isFavorite bookmarkId s \<longrightarrow>
            favorites (toggleFavorite bookmarkId (toggleFavorite bookmarkId s)) = favorites s)"
proof -
  let ?t = "toggleFavorite bookmarkId s"
  let ?tt = "toggleFavorite bookmarkId ?t"
  have known: "find (\<lambda>b. bm_id b = bookmarkId) (chromeBookmarks ?t) = Some bookmark"
    using assms(1) by (simp add: toggleFavorite_chromeBookmarks)
  have id: "bm_id bookmark = bookmarkId"
    using find_id_SomeD [OF assms(1)] by simp
  show ?thesis
  proof (cases "isFavorite bookmarkId s")
    case True
    have t: "favorites ?t = filter (\<lambda>b. bm_id b \<noteq> bookmarkId) (favorites s)"
      using assms(1) True assms(2) by (rule toggleFavorite_present)
    then have gone: "\<not> isFavorite bookmarkId ?t"
      by (auto simp: isFavorite_iff)
    have tt: "favorites ?tt = filter (\<lambda>b. bm_id b \<noteq> bookmarkId) (favorites s) @ [bookmark]"
      using toggleFavorite_absent [OF known gone] t by simp
    have "isFavorite i ?tt = isFavorite i s" for i
      using True id by (auto simp: isFavorite_iff tt)
    with True gone tt show ?thesis by simp
  next
    case False
    have t: "favorites ?t = favorites s @ [bookmark]"
      using assms(1) False by (rule toggleFavorite_absent)
    then have there: "isFavorite bookmarkId ?t"
      using id by (simp add: isFavorite_iff)
    from False have "bookmarkId \<notin> bm_id ` set (favorites s)"
      by (simp add: isFavorite_iff)
    with known t have tt: "favorites ?tt = favorites s"
      by (rule toggleFavorite_remove_last)
    with False there show ?thesis by (simp add: isFavorite_def)
  qed
qed

text \<open>Favorites \<open>[X, Y]\<close>, all known: toggling \<open>X\<close> twice gives \<open>[Y, X]\<close>.\<close>

theorem toggleFavorite_twice_example:
  "find (\<lambda>b. bm_id b = ''X'') [bm ''X'', bm ''Y''] = Some (bm ''X'')
 \<and> distinct (map bm_id [bm ''X'', bm ''Y''])
 \<and> isFavorite ''X'' (empty_manager\<lparr>chromeBookmarks := [bm ''X'', bm ''Y''],
                                   favorites := [bm ''X'', bm ''Y'']\<rparr>)
 \<and> favorites (toggleFavorite ''X'' (toggleFavorite ''X''
       (empty_manager\<lparr>chromeBookmarks := [bm ''X'', bm ''Y''],
                       favorites := [bm ''X'', bm ''Y'']\<rparr>)))
     = [bm ''Y'', bm ''X'']"
proof -
  let ?s = "empty_manager\<lparr>chromeBookmarks := [bm ''X'', bm ''Y''],
                          favorites := [bm ''X'', bm ''Y'']\<rparr>"
  have known: "find (\<lambda>b. bm_id b = ''X'') (chromeBookmarks ?s) = Some (bm ''X'')"
    by (simp add: bm_def)
  have dist: "distinct (map bm_id (favorites ?s))"
    by (simp add: bm_def)
  have fav: "isFavorite ''X'' ?s"
    by (simp add: isFavorite_def bm_def)
  from toggleFavorite_twice [OF known dist] fav
  have "favorites (toggleFavorite ''X'' (toggleFavorite ''X'' ?s)) =
          filter (\<lambda>b. bm_id b \<noteq> ''X'') (favorites ?s) @ [bm ''X'']"
    by blast
  then have "favorites (toggleFavorite ''X'' (toggleFavorite ''X'' ?s)) = [bm ''Y'', bm ''X'']"
    by (simp add: bm_def)
  with known dist fav show ?thesis by simp
qed

section \<open>Persistence of the favorites\<close>

lemma saveFavorites_full_write:
  "storage_set_calls s' = storage_set_calls s \<Longrightarrow> full_write s (saveFavorites s')"
  by (simp add: full_write_def saveFavorites_def)

lemma toggleFavorite_known_write:
  assumes "bookmarkId \<in> bm_id ` set (chromeBookmarks s)"
  shows "full_write s (toggleFavorite bookmarkId s)"
proof -
  from assms have "find (\<lambda>b. bm_id b = bookmarkId) (chromeBookmarks s) \<noteq> None"
    by (auto simp: find_None_iff)
  then obtain b where "find (\<lambda>b. bm_id b = bookmarkId) (chromeBookmarks s) = Some b"
    by blast
  then show ?thesis
    by (auto simp: toggleFavorite_def intro!: saveFavorites_full_write split: option.splits)
qed

lemma toggleFavorite_unknown_id:
  assumes "bookmarkId \<notin> bm_id ` set (chromeBookmarks s)"
  shows "toggleFavorite bookmarkId s = s"
proof -
  from assms have "find (\<lambda>b. bm_id b = bookmarkId) (chromeBookmarks s) = None"
    by (auto simp: find_None_iff)
  then show ?thesis by (rule toggleFavorite_unknown)
qed

lemma addToFavorites_new_write:
  "\<not> isFavorite (bm_id b) s \<Longrightarrow> full_write s (addToFavorites b s)"
  by (simp add: addToFavorites_def isFavorite_def saveFavorites_full_write)

lemma addToFavorites_old_unchanged:
  "isFavorite (bm_id b) s \<Longrightarrow> addToFavorites b s = s"
  by (simp add: addToFavorites_def isFavorite_def)

lemma removeFromFavorites_present_write:
  assumes "isFavorite r s"
  shows "full_write s (removeFromFavorites r s)"
proof -
  from assms obtain k where "findIndex (\<lambda>b. bm_id b = r) (favorites s) = Some k"
    using findIndex_id_None_iff [of r s] by auto
  then show ?thesis
    by (simp add: removeFromFavorites_def saveFavorites_full_write)
qed

lemma removeFromFavorites_absent_unchanged:
  "\<not> isFavorite r s \<Longrightarrow> removeFromFavorites r s = s"
  by (simp add: removeFromFavorites_def findIndex_id_None_iff [symmetric])

lemma reorderFavorite_present_write:
  assumes "isFavorite d s" and "isFavorite t s"
  shows "full_write s (reorderFavorite d t s)"
proof -
  from assms(1) obtain i where i: "findIndex (\<lambda>b. bm_id b = d) (favorites s) = Some i"
    using findIndex_id_None_iff [of d s] by auto
  from assms(2) obtain j where j: "findIndex (\<lambda>b. bm_id b = t) (favorites s) = Some j"
    using findIndex_id_None_iff [of t s] by auto
  show ?thesis
    unfolding reorderFavorite_found [OF i j]
    by (rule saveFavorites_full_write) simp
qed

lemma reorderFavorite_absent_unchanged:
  "\<not> (isFavorite d s \<and> isFavorite t s) \<Longrightarrow> reorderFavorite d t s = s"
  by (rule reorderFavorite_missing) (simp add: findIndex_id_None_iff)

text \<open>
  C6. Each of the four operations, on every input on which it goes on to change the
  list, issues one \<open>chrome.storage.local.set\<close> call whose value is the whole favorites
  list as the operation leaves it: toggle when the id is a known bookmark's, add when no
  favorite has the bookmark's id, remove when the id is a favorite's, reorder when both
  ids are favorites'. On every other input the operation returns the manager as it
  was, store included. So a changed list is always written, and nothing but one whole
  list is ever written: the log of calls grows by exactly that one entry.
\<close>

theorem favorites_mutations_write_whole_list:
  "(bookmarkId \<in> bm_id ` set (chromeBookmarks s) \<longrightarrow>
      full_write s (toggleFavorite bookmarkId s))
 \<and> (bookmarkId \<notin> bm_id ` set (chromeBookmarks s) \<longrightarrow> toggleFavorite bookmarkId s = s)
 \<and> (\<not> isFavorite (bm_id b) s \<longrightarrow> full_write s (addToFavorites b s))
 \<and> (isFavorite (bm_id b) s \<longrightarrow> addToFavorites b s = s)
 \<and> (isFavorite r s \<longrightarrow> full_write s (removeFromFavorites r s))
 \<and> (\<not> isFavorite r s \<longrightarrow> removeFromFavorites r s = s)
 \<and> (isFavorite d s \<and> isFavorite t s \<longrightarrow> full_write s (reorderFavorite d t s))
 \<and> (\<not> (isFavorite d s \<and> isFavorite t s) \<longrightarrow> reorderFavorite d t s = s)
 \<and> (favorites (toggleFavorite bookmarkId s) \<noteq> favorites s \<longrightarrow>
      full_write s (toggleFavorite bookmarkId s))
 \<and> (favorites (addToFavorites b s) \<noteq> favorites s \<longrightarrow> full_write s (addToFavorites b s))
 \<and> (favorites (removeFromFavorites r s) \<noteq> favorites s \<longrightarrow>
      full_write s (removeFromFavorites r s))
 \<and> (favorites (reorderFavorite d t s) \<noteq> favorites s \<longrightarrow>
      full_write s (reorderFavorite d t s))
 \<and> (\<forall>s' \<in> {toggleFavorite bookmarkId s, addToFavorites b s, removeFromFavorites r s,
              reorderFavorite d t s}.
        s' = s \<or>
        (full_write s s' \<and>
         storage_set_calls s' = storage_set_calls s @ [(''favoriteBookmarks'', favorites s')] \<and>
         length (storage_set_calls s') = length (storage_set_calls s) + 1))"
proof -
  have full: "full_write s s' \<and>
      storage_set_calls s' = storage_set_calls s @ [(''favoriteBookmarks'', favorites s')] \<and>
      length (storage_set_calls s') = length (storage_set_calls s) + 1"
    if "full_write s s'" for s'
    using that by (simp add: full_write_def favorites_key_def)
  have toggle: "toggleFavorite bookmarkId s = s \<or> full_write s (toggleFavorite bookmarkId s)"
    using toggleFavorite_known_write [of bookmarkId s] toggleFavorite_unknown_id [of bookmarkId s]
    by blast
  have add: "addToFavorites b s = s \<or> full_write s (addToFavorites b s)"
    using addToFavorites_new_write [of b s] addToFavorites_old_unchanged [of b s]
    by blast
  have remove: "removeFromFavorites r s = s \<or> full_write s (removeFromFavorites r s)"
    using removeFromFavorites_present_write [of r s] removeFromFavorites_absent_unchanged [of r s]
    by blast
  have reorder: "reorderFavorite d t s = s \<or> full_write s (reorderFavorite d t s)"
    using reorderFavorite_present_write [of d s t] reorderFavorite_absent_unchanged [of d s t]
    by blast
  have changed: "full_write s s'" if "s' = s \<or> full_write s s'" "favorites s' \<noteq> favorites s"
    for s'
    using that by auto
  have each: "\<forall>s' \<in> {toggleFavorite bookmarkId s, addToFavorites b s, removeFromFavorites r s,
      reorderFavorite d t s}.
      s' = s \<or>
      (full_write s s' \<and>
       storage_set_calls s' = storage_set_calls s @ [(''favoriteBookmarks'', favorites s')] \<and>
       length (storage_set_calls s') = length (storage_set_calls s) + 1)"
    using toggle add remove reorder full by blast
  show ?thesis
    using toggleFavorite_known_write [of bookmarkId s] toggleFavorite_unknown_id [of bookmarkId s]
      addToFavorites_new_write [of b s] addToFavorites_old_unchanged [of b s]
      removeFromFavorites_present_write [of r s] removeFromFavorites_absent_unchanged [of r s]
      reorderFavorite_present_write [of d s t] reorderFavorite_absent_unchanged [of d s t]
      changed [OF toggle] changed [OF add] changed [OF remove] changed [OF reorder] each
    by (intro conjI impI) blast+
qed

text \<open>
  Favorites \<open>[X, Y]\<close> with \<open>X\<close>, \<open>Y\<close>, \<open>Z\<close> known and nothing written yet: toggling \<open>Z\<close>
  and adding \<open>Z\<close> each write \<open>[X, Y, Z]\<close>, removing \<open>X\<close> writes \<open>[Y]\<close>, and reordering \<open>X\<close>
  onto \<open>Y\<close> writes \<open>[Y, X]\<close>; toggling the unknown \<open>W\<close> writes nothing.
\<close>

theorem favorites_mutations_write_whole_list_example:
  "storage_set_calls (toggleFavorite ''Z''
      (empty_manager\<lparr>chromeBookmarks := [bm ''X'', bm ''Y'', bm ''Z''],
                      favorites := [bm ''X'', bm ''Y'']\<rparr>))
     = [(''favoriteBookmarks'', [bm ''X'', bm ''Y'', bm ''Z''])]
 \<and> storage_set_calls (addToFavorites (bm ''Z'')
      (empty_manager\<lparr>chromeBookmarks := [bm ''X'', bm ''Y'', bm ''Z''],
                      favorites := [bm ''X'', bm ''Y'']\<rparr>))
     = [(''favoriteBookmarks'', [bm ''X'', bm ''Y'', bm ''Z''])]
 \<and> storage_set_calls (removeFromFavorites ''X''
      (empty_manager\<lparr>chromeBookmarks := [bm ''X'', bm ''Y'', bm ''Z''],
                      favorites := [bm ''X'', bm ''Y'']\<rparr>))
     = [(''favoriteBookmarks'', [bm ''Y''])]
 \<and> storage_set_calls (reorderFavorite ''X'' ''Y''
      (empty_manager\<lparr>chromeBookmarks := [bm ''X'', bm ''Y'', bm ''Z''],
                      favorites := [bm ''X'', bm ''Y'']\<rparr>))
     = [(''favoriteBookmarks'', [bm ''Y'', bm ''X''])]
 \<and> storage_set_calls (toggleFavorite ''W''
      (empty_manager\<lparr>chromeBookmarks := [bm ''X'', bm ''Y'', bm ''Z''],
                      favorites := [bm ''X'', bm ''Y'']\<rparr>))
     = []"
proof -
  let ?s = "empty_manager\<lparr>chromeBookmarks := [bm ''X'', bm ''Y'', bm ''Z''],
                          favorites := [bm ''X'', bm ''Y'']\<rparr>"
  have calls: "storage_set_calls ?s = []"
    by (simp add: empty_manager_def)
  have known: "''Z'' \<in> bm_id ` set (chromeBookmarks ?s)"
    by (simp add: bm_def)
  have unknown: "''W'' \<notin> bm_id ` set (chromeBookmarks ?s)"
    by (simp add: bm_def)
  have new: "\<not> isFavorite (bm_id (bm ''Z'')) ?s"
    by (simp add: isFavorite_def bm_def)
  have x: "isFavorite ''X'' ?s" and y: "isFavorite ''Y'' ?s"
    by (simp_all add: isFavorite_def bm_def)
  note toggled = favorites_mutations_write_whole_list [of "''Z''" ?s "bm ''Z''" "''X''" "''X''" "''Y''"]
  note ignored = favorites_mutations_write_whole_list [of "''W''" ?s "bm ''Z''" "''X''" "''X''" "''Y''"]
  from toggled known have w1: "full_write ?s (toggleFavorite ''Z'' ?s)" by blast
  from toggled new have w2: "full_write ?s (addToFavorites (bm ''Z'') ?s)" by blast
  from toggled x have w3: "full_write ?s (removeFromFavorites ''X'' ?s)" by blast
  from toggled x y have w4: "full_write ?s (reorderFavorite ''X'' ''Y'' ?s)" by blast
  from ignored unknown have w5: "toggleFavorite ''W'' ?s = ?s" by blast
  have f1: "favorites (toggleFavorite ''Z'' ?s) = [bm ''X'', bm ''Y'', bm ''Z'']"
    by (simp add: toggleFavorite_def bm_def)
  have f2: "favorites (addToFavorites (bm ''Z'') ?s) = [bm ''X'', bm ''Y'', bm ''Z'']"
    by (simp add: addToFavorites_def bm_def)
  have f3: "favorites (removeFromFavorites ''X'' ?s) = [bm ''Y'']"
    by (simp add: removeFromFavorites_def array_splice_def bm_def)
  have f4: "favorites (reorderFavorite ''X'' ''Y'' ?s) = [bm ''Y'', bm ''X'']"
    by (simp add: reorderFavorite_def array_splice_def bm_def)
  from w1 f1 calls
  have c1: "storage_set_calls (toggleFavorite ''Z'' ?s) =
      [(''favoriteBookmarks'', [bm ''X'', bm ''Y'', bm ''Z''])]"
    by (simp add: full_write_def favorites_key_def)
  from w2 f2 calls
  have c2: "storage_set_calls (addToFavorites (bm ''Z'') ?s) =
      [(''favoriteBookmarks'', [bm ''X'', bm ''Y'', bm ''Z''])]"
    by (simp add: full_write_def favorites_key_def)
  from w3 f3 calls
  have c3: "storage_set_calls (removeFromFavorites ''X'' ?s) = [(''favoriteBookmarks'', [bm ''Y''])]"
    by (simp add: full_write_def favorites_key_def)
  from w4 f4 calls
  have c4: "storage_set_calls (reorderFavorite ''X'' ''Y'' ?s) =
      [(''favoriteBookmarks'', [bm ''Y'', bm ''X''])]"
    by (simp add: full_write_def favorites_key_def)
  from w5 calls have c5: "storage_set_calls (toggleFavorite ''W'' ?s) = []"
    by simp
  from c1 c2 c3 c4 c5 show ?thesis by blast
qed

section \<open>Operations that change nothing\<close>

lemma reinsert_same_index:
  assumes "i < length xs"
  shows "take i (take i xs @ drop (Suc i) xs) @ [xs ! i] @ drop i (take i xs @ drop (Suc i) xs) = xs"
  using assms by (simp add: min_absorb2 Cons_nth_drop_Suc)

text \<open>
  C7. \<open>reorderFavorite a a\<close> leaves the favorites list as it was; \<open>reorderFavorite a b\<close>
  with \<open>a\<close> or \<open>b\<close> not among the favorites leaves the whole manager as it was; and
  \<open>toggleFavorite\<close> of an id that no known bookmark has leaves the whole manager as it
  was. The operations are total: each returns a manager, and no branch raises an error.
\<close>

theorem favorites_operations_silently_unchanged:
  "favorites (reorderFavorite a a s) = favorites s
 \<and> (\<not> isFavorite a s \<or> \<not> isFavorite b s \<longrightarrow>
      reorderFavorite a b s = s \<and> favorites (reorderFavorite a b s) = favorites s)
 \<and> (bookmarkId \<notin> bm_id ` set (chromeBookmarks s) \<longrightarrow>
      toggleFavorite bookmarkId s = s \<and> favorites (toggleFavorite bookmarkId s) = favorites s)"
proof -
  have same: "favorites (reorderFavorite a a s) = favorites s"
  proof (cases "findIndex (\<lambda>x. bm_id x = a) (favorites s)")
    case None
    then show ?thesis by (simp add: reorderFavorite_missing)
  next
    case (Some i)
    from findIndex_SomeD [OF Some] have "i < length (favorites s)" by simp
    then have "take i (take i (favorites s) @ drop (Suc i) (favorites s)) @ [favorites s ! i] @
        drop i (take i (favorites s) @ drop (Suc i) (favorites s)) = favorites s"
      by (rule reinsert_same_index)
    then show ?thesis
      by (simp add: reorderFavorite_found [OF Some Some] del: take_append drop_append)
  qed
  have absent: "reorderFavorite a b s = s" if "\<not> isFavorite a s \<or> \<not> isFavorite b s"
    using that by (intro reorderFavorite_missing) (simp add: findIndex_id_None_iff)
  have unknown: "toggleFavorite bookmarkId s = s"
    if "bookmarkId \<notin> bm_id ` set (chromeBookmarks s)"
  proof -
    from that have "find (\<lambda>x. bm_id x = bookmarkId) (chromeBookmarks s) = None"
      by (auto simp: find_None_iff)
    then show ?thesis by (rule toggleFavorite_unknown)
  qed
  from same absent unknown show ?thesis by simp
qed

text \<open>
  The scenario of the specification, an unknown id toggled on the empty list, with a
  reorder onto itself and a reorder with an absent target.
\<close>

theorem favorites_operations_silently_unchanged_example:
  "\<not> isFavorite ''W'' (empty_manager\<lparr>favorites := [bm ''X'', bm ''Y'']\<rparr>)
 \<and> ''missing-id'' \<notin> bm_id ` set (chromeBookmarks empty_manager)
 \<and> favorites (reorderFavorite ''X'' ''X'' (empty_manager\<lparr>favorites := [bm ''X'', bm ''Y'']\<rparr>))
     = [bm ''X'', bm ''Y'']
 \<and> favorites (reorderFavorite ''X'' ''W'' (empty_manager\<lparr>favorites := [bm ''X'', bm ''Y'']\<rparr>))
     = [bm ''X'', bm ''Y'']
 \<and> favorites (toggleFavorite ''missing-id'' empty_manager) = []"
proof -
  let ?s = "empty_manager\<lparr>favorites := [bm ''X'', bm ''Y'']\<rparr>"
  have absent: "\<not> isFavorite ''W'' ?s"
    by (simp add: isFavorite_def bm_def)
  have unknown: "''missing-id'' \<notin> bm_id ` set (chromeBookmarks empty_manager)"
    by (simp add: empty_manager_def)
  from favorites_operations_silently_unchanged [of "''X''" ?s "''W''" "''missing-id''"] absent
  have "favorites (reorderFavorite ''X'' ''X'' ?s) = favorites ?s"
    and "favorites (reorderFavorite ''X'' ''W'' ?s) = favorites ?s"
    by blast+
  moreover
  from favorites_operations_silently_unchanged
    [of "''X''" empty_manager "''W''" "''missing-id''"] unknown
  have "favorites (toggleFavorite ''missing-id'' empty_manager) = favorites empty_manager"
    by blast
  ultimately show ?thesis
    using absent unknown by (simp add: empty_manager_def)
qed

section \<open>Adding twice, and the distinctness of ids\<close>

lemma addToFavorites_present:
  "isFavorite (bm_id b) s \<Longrightarrow> addToFavorites b s = s"
  by (simp add: addToFavorites_def isFavorite_def)

lemma addToFavorites_absent:
  "\<not> isFavorite (bm_id b) s \<Longrightarrow>
   addToFavorites b s = saveFavorites (s\<lparr>favorites := favorites s @ [b]\<rparr>)"
  by (simp add: addToFavorites_def isFavorite_def)

lemma isFavorite_after_add: "isFavorite (bm_id b) (addToFavorites b s)"
  by (cases "isFavorite (bm_id b) s")
     (simp_all add: addToFavorites_present addToFavorites_absent isFavorite_iff)

text \<open>
  C9. \<open>addToFavorites\<close> appends the bookmark exactly when no favorite has its id, and
  otherwise changes nothing. A second call with the same bookmark therefore changes
  nothing at all, neither the list nor the store, and two calls lengthen the list by at
  most one.
\<close>

theorem addToFavorites_idempotent:
  "favorites (addToFavorites b s) =
     (if isFavorite (bm_id b) s then favorites s else favorites s @ [b])
 \<and> addToFavorites b (addToFavorites b s) = addToFavorites b s
 \<and> length (favorites (addToFavorites b (addToFavorites b s))) \<le> length (favorites s) + 1"
proof -
  have first: "favorites (addToFavorites b s) =
      (if isFavorite (bm_id b) s then favorites s else favorites s @ [b])"
    by (simp add: addToFavorites_present addToFavorites_absent)
  have second: "addToFavorites b (addToFavorites b s) = addToFavorites b s"
    using isFavorite_after_add by (rule addToFavorites_present)
  from first second show ?thesis by simp
qed

text \<open>Adding \<open>X\<close> twice to \<open>[Y]\<close> gives \<open>[Y, X]\<close> and a single write.\<close>

theorem addToFavorites_idempotent_example:
  "favorites (addToFavorites (bm ''X'') (addToFavorites (bm ''X'')
      (empty_manager\<lparr>favorites := [bm ''Y'']\<rparr>))) = [bm ''Y'', bm ''X'']
 \<and> length (storage_set_calls (addToFavorites (bm ''X'') (addToFavorites (bm ''X'')
      (empty_manager\<lparr>favorites := [bm ''Y'']\<rparr>)))) = 1"
proof -
  let ?s = "empty_manager\<lparr>favorites := [bm ''Y'']\<rparr>"
  have once: "addToFavorites (bm ''X'') ?s =
      ?s\<lparr>favorites := [bm ''Y'', bm ''X''],
         storage_set_calls := [(favorites_key, [bm ''Y'', bm ''X''])]\<rparr>"
    by (simp add: addToFavorites_def saveFavorites_def empty_manager_def bm_def)
  from addToFavorites_idempotent [of "bm ''X''" ?s]
  have "addToFavorites (bm ''X'') (addToFavorites (bm ''X'') ?s) = addToFavorites (bm ''X'') ?s"
    by blast
  then show ?thesis
    by (simp add: once)
qed

lemma distinct_ids_removed:
  assumes "distinct (map f xs)"
  shows "distinct (map f (take k xs @ drop (Suc k) xs))"
proof -
  have "set (take k (map f xs)) \<inter> set (drop (Suc k) (map f xs)) = {}"
    using assms by (intro set_take_disj_set_drop_if_distinct) simp_all
  with assms show ?thesis
    by (simp add: take_map drop_map distinct_take distinct_drop
        flip: take_map drop_map)
qed

lemma reordered_mset:
  assumes "i < length xs"
  shows "mset (take j (take i xs @ drop (Suc i) xs) @ [xs ! i] @
              drop j (take i xs @ drop (Suc i) xs)) = mset xs"
proof -
  let ?rest = "take i xs @ drop (Suc i) xs"
  have "mset (take j ?rest @ [xs ! i] @ drop j ?rest) = mset (take j ?rest @ drop j ?rest) + {#xs ! i#}"
    by (simp del: take_append drop_append append_take_drop_id)
  also have "\<dots> = mset ?rest + {#xs ! i#}"
    by (simp only: append_take_drop_id)
  also have "\<dots> = mset (take i xs @ xs ! i # drop (Suc i) xs)"
    by simp
  also have "\<dots> = mset xs"
    using assms by (simp only: id_take_nth_drop [symmetric])
  finally show ?thesis .
qed

lemma reorderFavorite_mset:
  "mset (favorites (reorderFavorite d t s)) = mset (favorites s)"
proof (cases "findIndex (\<lambda>b. bm_id b = d) (favorites s)")
  case None
  then show ?thesis by (simp add: reorderFavorite_missing)
next
  case di: (Some i)
  show ?thesis
  proof (cases "findIndex (\<lambda>b. bm_id b = t) (favorites s)")
    case None
    then show ?thesis by (simp add: reorderFavorite_missing)
  next
    case (Some j)
    from findIndex_SomeD [OF di] have "i < length (favorites s)" by simp
    then show ?thesis
      using reordered_mset [of i "favorites s" j]
      by (simp add: reorderFavorite_found [OF di Some] del: take_append drop_append)
  qed
qed

lemma removeFromFavorites_favorites:
  "favorites (removeFromFavorites i s) =
     (case findIndex (\<lambda>b. bm_id b = i) (favorites s) of
        Some k \<Rightarrow> take k (favorites s) @ drop (Suc k) (favorites s)
      | None \<Rightarrow> favorites s)"
  by (simp add: removeFromFavorites_def array_splice_def split: option.splits)

text \<open>
  C10. If no two favorites share an id, then none do after \<open>toggleFavorite\<close>,
  \<open>addToFavorites\<close>, \<open>removeFromFavorites\<close> or \<open>reorderFavorite\<close>, whatever the arguments.
  Nothing is needed of the known bookmarks: toggle appends the bookmark it found under
  the id, and only when no favorite has that id.
\<close>

theorem favorites_ids_stay_distinct:
  assumes "distinct (map bm_id (favorites s))"
  shows "distinct (map bm_id (favorites (toggleFavorite i s)))
       \<and> distinct (map bm_id (favorites (addToFavorites b s)))
       \<and> distinct (map bm_id (favorites (removeFromFavorites i s)))
       \<and> distinct (map bm_id (favorites (reorderFavorite d t s)))"
proof -
  have toggle: "distinct (map bm_id (favorites (toggleFavorite i s)))"
  proof (cases "find (\<lambda>b. bm_id b = i) (chromeBookmarks s)")
    case None
    with assms show ?thesis by (simp add: toggleFavorite_unknown)
  next
    case (Some x)
    from find_id_SomeD [OF Some] have id: "bm_id x = i" by simp
    show ?thesis
    proof (cases "findIndex (\<lambda>b. bm_id b = i) (favorites s)")
      case None
      then have "i \<notin> bm_id ` set (favorites s)"
        by (simp add: findIndex_id_None_iff isFavorite_iff)
      with assms id None show ?thesis
        by (simp add: toggleFavorite_favorites [OF Some])
    next
      case (Some k)
      with assms show ?thesis
        by (simp add: toggleFavorite_favorites [OF \<open>find _ _ = Some x\<close>] distinct_ids_removed
            del: map_append)
    qed
  qed
  have add: "distinct (map bm_id (favorites (addToFavorites b s)))"
    using assms
    by (cases "isFavorite (bm_id b) s")
       (simp_all add: addToFavorites_present addToFavorites_absent isFavorite_iff)
  have remove: "distinct (map bm_id (favorites (removeFromFavorites i s)))"
    using assms
    by (simp add: removeFromFavorites_favorites distinct_ids_removed
        split: option.splits del: map_append)
  have "mset (map bm_id (favorites (reorderFavorite d t s))) = mset (map bm_id (favorites s))"
    by (simp add: reorderFavorite_mset)
  from mset_eq_imp_distinct_iff [OF this] assms
  have reorder: "distinct (map bm_id (favorites (reorderFavorite d t s)))"
    by blast
  from toggle add remove reorder show ?thesis by simp
qed

text \<open>From \<open>[X, Y]\<close>: toggling the known \<open>Z\<close> appends it, and the ids stay distinct.\<close>

theorem favorites_ids_stay_distinct_example:
  "distinct (map bm_id [bm ''X'', bm ''Y''])
 \<and> favorites (toggleFavorite ''Z''
       (empty_manager\<lparr>chromeBookmarks := [bm ''Z''], favorites := [bm ''X'', bm ''Y'']\<rparr>))
     = [bm ''X'', bm ''Y'', bm ''Z'']
 \<and> distinct (map bm_id (favorites (toggleFavorite ''Z''
       (empty_manager\<lparr>chromeBookmarks := [bm ''Z''], favorites := [bm ''X'', bm ''Y'']\<rparr>))))"
proof -
  let ?s = "empty_manager\<lparr>chromeBookmarks := [bm ''Z''], favorites := [bm ''X'', bm ''Y'']\<rparr>"
  have dist: "distinct (map bm_id (favorites ?s))"
    by (simp add: bm_def)
  have after: "favorites (toggleFavorite ''Z'' ?s) = [bm ''X'', bm ''Y'', bm ''Z'']"
    by (simp add: toggleFavorite_def bm_def)
  from favorites_ids_stay_distinct [OF dist, of "''Z''" "bm ''Z''" "''X''" "''Y''"]
  have "distinct (map bm_id (favorites (toggleFavorite ''Z'' ?s)))"
    by blast
  with dist after show ?thesis by simp
qed

section \<open>The traversal, node by node\<close>

lemma traverse_bookmarks:
  "chromeBookmarks (traverseBookmarksTree ns s) =
     chromeBookmarks s @ map toFlatBookmark (filter is_leaf (preorder ns))"
  "chromeBookmarks (traverse_node n s) =
     chromeBookmarks s @ map toFlatBookmark (filter is_leaf (preorder_node n))"
  by (induction ns s and n s rule: traverseBookmarksTree_traverse_node.induct)
     (auto split: option.splits simp: is_leaf_def toFlatBookmark_def)

lemma traverse_folders:
  "folders (traverseBookmarksTree ns s) =
     folders s @ map folder_of (filter emitted (preorder ns))"
  "folders (traverse_node n s) =
     folders s @ map folder_of (filter emitted (preorder_node n))"
  by (induction ns s and n s rule: traverseBookmarksTree_traverse_node.induct)
     (auto split: option.splits simp: emitted_def is_folder_def folder_of_def)

lemma collect_leaves:
  "\<forall>n \<in> set (preorder cs). folder_has_no_url n \<Longrightarrow>
   collectBookmarksFromFolder cs acc = acc @ map toFlatBookmark (filter is_leaf (preorder cs))"
  "\<forall>n \<in> set (preorder_node c). folder_has_no_url n \<Longrightarrow>
   collect_child c acc = acc @ map toFlatBookmark (filter is_leaf (preorder_node c))"
  by (induction cs acc and c acc rule: collectBookmarksFromFolder_collect_child.induct)
     (auto split: option.splits simp: is_leaf_def is_folder_def toFlatBookmark_def
        folder_has_no_url_def)

lemma descendants_subset:
  "n \<in> set (preorder ns) \<Longrightarrow> set (descendants n) \<subseteq> set (preorder ns)"
  "n \<in> set (preorder_node m) \<Longrightarrow> set (descendants n) \<subseteq> set (preorder_node m)"
  by (induction ns and m rule: preorder_preorder_node.induct)
     (auto simp: descendants_def split: option.splits)

lemma folder_of_toFlatFolder:
  assumes "\<forall>m \<in> set (descendants n). folder_has_no_url m"
  shows "folder_of n = toFlatFolder n"
proof (cases "node_children n")
  case None
  then show ?thesis
    by (simp add: folder_of_def toFlatFolder_def descendants_def)
next
  case (Some cs)
  with assms have "\<forall>m \<in> set (preorder cs). folder_has_no_url m"
    by (simp add: descendants_def)
  from collect_leaves(1) [OF this, of "[]"] Some show ?thesis
    by (simp add: folder_of_def toFlatFolder_def descendants_def)
qed

lemma sort_insert_mset: "mset (sort_insert c x ys) = add_mset x (mset ys)"
  by (induction ys) auto

lemma array_sort_mset: "mset (array_sort c xs) = mset xs"
  by (induction xs) (auto simp: sort_insert_mset)

lemma array_sort_set: "set (array_sort c xs) = set xs"
  using array_sort_mset [of c xs] by (metis set_mset_mset)

lemma load_bookmarks:
  "chromeBookmarks (loadChromeBookmarks c (Some forest) s) =
     map toFlatBookmark (filter is_leaf (preorder forest))"
  by (simp add: loadChromeBookmarks_def Let_def traverse_bookmarks)

lemma load_folders:
  "folders (loadChromeBookmarks c (Some forest) s) =
     array_sort (\<lambda>a b. c (fd_title a) (fd_title b)) (traversal_folders forest s)"
  by (simp add: loadChromeBookmarks_def Let_def traversal_folders_def)

lemma traversal_folders_eq:
  "traversal_folders forest s = map folder_of (filter emitted (preorder forest))"
  by (simp add: traversal_folders_def traverse_folders)

section \<open>The flattened lists\<close>

text \<open>
  C2. After \<open>loadChromeBookmarks\<close> on a forest, \<open>chromeBookmarks\<close> is the list of the
  forest's nodes in depth-first pre-order, restricted to the leaves (a url, here a
  non-empty one as the code tests it, and no children) and turned into flat bookmarks:
  every leaf once, in pre-order, and nothing else. None of the nodes it comes from is a
  folder, and where the ids of the forest are distinct, so are the ids of the list.
\<close>

theorem chromeBookmarks_are_leaves_in_preorder:
  "chromeBookmarks (loadChromeBookmarks localeCompare (Some forest) s) =
     map toFlatBookmark (filter is_leaf (preorder forest))
 \<and> (\<forall>n \<in> set (filter is_leaf (preorder forest)). \<not> is_folder n)
 \<and> length (chromeBookmarks (loadChromeBookmarks localeCompare (Some forest) s)) =
     length (filter is_leaf (preorder forest))
 \<and> (distinct (map node_id (preorder forest)) \<longrightarrow>
      distinct (map bm_id (chromeBookmarks (loadChromeBookmarks localeCompare (Some forest) s))))"
proof -
  let ?out = "chromeBookmarks (loadChromeBookmarks localeCompare (Some forest) s)"
  have eq: "?out = map toFlatBookmark (filter is_leaf (preorder forest))"
    by (rule load_bookmarks)
  have no_folder: "\<forall>n \<in> set (filter is_leaf (preorder forest)). \<not> is_folder n"
    by (simp add: is_leaf_def is_folder_def)
  have len: "length ?out = length (filter is_leaf (preorder forest))"
    by (simp add: eq)
  have ids: "map bm_id ?out = map node_id (filter is_leaf (preorder forest))"
    by (simp add: eq toFlatBookmark_def)
  have "distinct (map bm_id ?out)" if "distinct (map node_id (preorder forest))"
    unfolding ids using that by (rule distinct_map_filter)
  with eq no_folder len show ?thesis by blast
qed

text \<open>The scenario tree gives the bookmarks \<open>[A, B]\<close>.\<close>

theorem chromeBookmarks_are_leaves_in_preorder_example:
  "distinct (map node_id (preorder scenario_tree))
 \<and> filter is_leaf (preorder scenario_tree) = [leaf ''5'' ''A'' ''1'', leaf ''7'' ''B'' ''6'']
 \<and> chromeBookmarks (loadChromeBookmarks compare_length (Some scenario_tree) empty_manager) =
     [toFlatBookmark (leaf ''5'' ''A'' ''1''), toFlatBookmark (leaf ''7'' ''B'' ''6'')]
 \<and> distinct (map bm_id
       (chromeBookmarks (loadChromeBookmarks compare_length (Some scenario_tree) empty_manager)))"
proof -
  have ids: "distinct (map node_id (preorder scenario_tree))"
    by (simp add: scenario_tree_def folder_def leaf_def)
  have leaves: "filter is_leaf (preorder scenario_tree) =
      [leaf ''5'' ''A'' ''1'', leaf ''7'' ''B'' ''6'']"
    by (simp add: scenario_tree_def folder_def leaf_def is_leaf_def)
  from chromeBookmarks_are_leaves_in_preorder [of compare_length scenario_tree empty_manager] ids
  have "chromeBookmarks (loadChromeBookmarks compare_length (Some scenario_tree) empty_manager) =
      map toFlatBookmark (filter is_leaf (preorder scenario_tree))"
    and "distinct (map bm_id
      (chromeBookmarks (loadChromeBookmarks compare_length (Some scenario_tree) empty_manager)))"
    by blast+
  with ids leaves show ?thesis by (simp only: list.map simp_thms)
qed

text \<open>
  C3. Let every node of the forest obey the data model's rule that a node with children
  has no url. Then the folder list the traversal builds is, in pre-order, one entry for
  each folder node with a non-empty title and an id that is not reserved, and the
  \<open>children\<close> of that entry are the leaf descendants of the node at any depth, in
  pre-order. The sort of \<open>loadChromeBookmarks\<close> only permutes these entries. The rule
  is needed because \<open>collectBookmarksFromFolder\<close> looks at \<open>url\<close> before \<open>children\<close>
  and \<open>traverseBookmarksTree\<close> at \<open>children\<close> before \<open>url\<close>: only on a node that has
  both do the two disagree about what a bookmark is.
\<close>

theorem folder_children_are_leaf_descendants:
  assumes "\<forall>n \<in> set (preorder forest). folder_has_no_url n"
  shows "traversal_folders forest s = map toFlatFolder (filter emitted (preorder forest))
       \<and> mset (folders (loadChromeBookmarks localeCompare (Some forest) s)) =
           mset (map toFlatFolder (filter emitted (preorder forest)))
       \<and> (\<forall>n \<in> set (preorder forest). emitted n \<longrightarrow>
            (\<exists>f \<in> set (folders (loadChromeBookmarks localeCompare (Some forest) s)).
               fd_id f = node_id n \<and> fd_title f = node_title n \<and>
               fd_parentId f = node_parentId n \<and>
               fd_children f = map toFlatBookmark (filter is_leaf (descendants n))))"
proof -
  have "folder_of n = toFlatFolder n" if "n \<in> set (preorder forest)" for n
  proof -
    from descendants_subset(1) [OF that] assms
    have "\<forall>m \<in> set (descendants n). folder_has_no_url m" by blast
    then show ?thesis by (rule folder_of_toFlatFolder)
  qed
  then have trav: "traversal_folders forest s = map toFlatFolder (filter emitted (preorder forest))"
    by (simp add: traversal_folders_eq)
  then have sorted: "mset (folders (loadChromeBookmarks localeCompare (Some forest) s)) =
      mset (map toFlatFolder (filter emitted (preorder forest)))"
    by (simp add: load_folders array_sort_mset)
  have "\<exists>f \<in> set (folders (loadChromeBookmarks localeCompare (Some forest) s)).
      fd_id f = node_id n \<and> fd_title f = node_title n \<and> fd_parentId f = node_parentId n \<and>
      fd_children f = map toFlatBookmark (filter is_leaf (descendants n))"
    if "n \<in> set (preorder forest)" "emitted n" for n
  proof -
    from that have "toFlatFolder n \<in> set (folders (loadChromeBookmarks localeCompare (Some forest) s))"
      by (simp add: load_folders array_sort_set trav)
    then show ?thesis
      by (rule rev_bexI) (simp add: toFlatFolder_def)
  qed
  with trav sorted show ?thesis by blast
qed

text \<open>The scenario tree gives the one folder ``Work'' with the child \<open>B\<close>.\<close>

theorem folder_children_are_leaf_descendants_example:
  "list_all (\<lambda>n. \<not> (is_folder n \<and> truthy (node_url n))) (preorder scenario_tree)
 \<and> traversal_folders scenario_tree empty_manager =
     [\<lparr>fd_id = ''6'', fd_title = ''Work'',
       fd_children = [toFlatBookmark (leaf ''7'' ''B'' ''6'')], fd_parentId = Some ''1''\<rparr>]"
proof -
  have wf: "\<forall>n \<in> set (preorder scenario_tree). folder_has_no_url n"
    by (simp add: scenario_tree_def folder_def leaf_def folder_has_no_url_def is_folder_def)
  from folder_children_are_leaf_descendants [OF wf, of empty_manager compare_length]
  have "traversal_folders scenario_tree empty_manager =
      map toFlatFolder (filter emitted (preorder scenario_tree))"
    by blast
  also have "\<dots> = [\<lparr>fd_id = ''6'', fd_title = ''Work'',
       fd_children = [toFlatBookmark (leaf ''7'' ''B'' ''6'')], fd_parentId = Some ''1''\<rparr>]"
    by (simp add: scenario_tree_def folder_def leaf_def emitted_def is_folder_def is_leaf_def
        reserved_root_ids_def toFlatFolder_def descendants_def)
  finally show ?thesis
    by (simp add: scenario_tree_def folder_def leaf_def is_folder_def)
qed

text \<open>
  C4. After \<open>loadChromeBookmarks\<close>, no entry of \<open>folders\<close> has a reserved root id or an
  empty title. A node with a reserved id is still descended into: every leaf below it
  is among \<open>chromeBookmarks\<close>, and every titled, non-reserved folder below it has its
  entry, as the traversal builds it, among \<open>folders\<close>.
\<close>

theorem reserved_roots_skipped_but_traversed:
  "(\<forall>f \<in> set (folders (loadChromeBookmarks localeCompare (Some forest) s)).
      fd_id f \<notin> set reserved_root_ids \<and> fd_title f \<noteq> [])
 \<and> (\<forall>r \<in> set (preorder forest). node_id r \<in> set reserved_root_ids \<longrightarrow>
      (\<forall>n \<in> set (descendants r).
         (is_leaf n \<longrightarrow>
            toFlatBookmark n \<in>
              set (chromeBookmarks (loadChromeBookmarks localeCompare (Some forest) s)))
       \<and> (emitted n \<longrightarrow>
            folder_of n \<in> set (folders (loadChromeBookmarks localeCompare (Some forest) s)))))"
proof -
  let ?out = "loadChromeBookmarks localeCompare (Some forest) s"
  have fs: "set (folders ?out) = folder_of ` {n \<in> set (preorder forest). emitted n}"
    by (simp add: load_folders array_sort_set traversal_folders_eq)
  have bs: "set (chromeBookmarks ?out) = toFlatBookmark ` {n \<in> set (preorder forest). is_leaf n}"
    by (simp add: load_bookmarks)
  have first: "\<forall>f \<in> set (folders ?out). fd_id f \<notin> set reserved_root_ids \<and> fd_title f \<noteq> []"
    unfolding fs by (auto simp: emitted_def folder_of_def)
  have second: "(is_leaf n \<longrightarrow> toFlatBookmark n \<in> set (chromeBookmarks ?out))
      \<and> (emitted n \<longrightarrow> folder_of n \<in> set (folders ?out))"
    if "r \<in> set (preorder forest)" "n \<in> set (descendants r)" for r n
  proof -
    from descendants_subset(1) [OF that(1)] that(2) have "n \<in> set (preorder forest)"
      by blast
    then show ?thesis
      unfolding fs bs by blast
  qed
  from first second show ?thesis by blast
qed

text \<open>
  The scenario tree: the root with the reserved id \<open>1\<close> has no entry, the folder ``Work''
  below it has one, and the bookmarks \<open>A\<close> and \<open>B\<close> below it are listed.
\<close>

theorem reserved_roots_skipped_but_traversed_example:
  "hd scenario_tree \<in> set (preorder scenario_tree)
 \<and> node_id (hd scenario_tree) \<in> set reserved_root_ids
 \<and> descendants (hd scenario_tree) =
     [leaf ''5'' ''A'' ''1'', folder ''6'' ''Work'' ''1'' [leaf ''7'' ''B'' ''6''],
      leaf ''7'' ''B'' ''6'']
 \<and> toFlatBookmark (leaf ''7'' ''B'' ''6'') \<in>
     set (chromeBookmarks (loadChromeBookmarks compare_length (Some scenario_tree) empty_manager))
 \<and> folder_of (folder ''6'' ''Work'' ''1'' [leaf ''7'' ''B'' ''6'']) \<in>
     set (folders (loadChromeBookmarks compare_length (Some scenario_tree) empty_manager))
 \<and> map fd_id (folders (loadChromeBookmarks compare_length (Some scenario_tree) empty_manager))
     = [''6'']"
proof -
  let ?out = "loadChromeBookmarks compare_length (Some scenario_tree) empty_manager"
  let ?work = "folder ''6'' ''Work'' ''1'' [leaf ''7'' ''B'' ''6'']"
  have root: "hd scenario_tree \<in> set (preorder scenario_tree)"
    by (simp add: scenario_tree_def folder_def)
  have reserved: "node_id (hd scenario_tree) \<in> set reserved_root_ids"
    by (simp add: scenario_tree_def folder_def reserved_root_ids_def)
  have below: "descendants (hd scenario_tree) =
      [leaf ''5'' ''A'' ''1'', ?work, leaf ''7'' ''B'' ''6'']"
    by (simp add: scenario_tree_def folder_def leaf_def descendants_def)
  have b: "leaf ''7'' ''B'' ''6'' \<in> set (descendants (hd scenario_tree))"
    and w: "?work \<in> set (descendants (hd scenario_tree))"
    by (simp_all add: below)
  have lf: "is_leaf (leaf ''7'' ''B'' ''6'')"
    by (simp add: leaf_def is_leaf_def)
  have em: "emitted ?work"
    by (simp add: folder_def emitted_def is_folder_def reserved_root_ids_def)
  note inst = reserved_roots_skipped_but_traversed [of compare_length scenario_tree empty_manager]
  from inst root reserved b lf
  have inb: "toFlatBookmark (leaf ''7'' ''B'' ''6'') \<in> set (chromeBookmarks ?out)"
    by blast
  from inst root reserved w em
  have inf: "folder_of ?work \<in> set (folders ?out)"
    by blast
  have ids: "map fd_id (folders ?out) = [''6'']"
    by (simp add: load_folders traversal_folders_eq scenario_tree_def folder_def leaf_def
        emitted_def is_folder_def reserved_root_ids_def folder_of_def)
  from root reserved below inb inf ids show ?thesis by blast
qed

section \<open>The order of the folder list\<close>

lemma sort_insert_set: "set (sort_insert c x ys) = insert x (set ys)"
  using sort_insert_mset [of c x ys] by (metis set_mset_add_mset_insert set_mset_mset)

lemma sort_insert_sorted:
  assumes total: "\<forall>a b. c a b \<le> 0 \<or> c b a \<le> 0"
    and trans: "\<forall>a b d. c a b \<le> 0 \<longrightarrow> c b d \<le> 0 \<longrightarrow> c a d \<le> (0::int)"
  shows "sorted_wrt (\<lambda>a b. c a b \<le> 0) ys \<Longrightarrow> sorted_wrt (\<lambda>a b. c a b \<le> 0) (sort_insert c x ys)"
proof (induction ys)
  case Nil
  then show ?case by simp
next
  case (Cons y ys)
  show ?case
  proof (cases "c x y \<le> 0")
    case True
    with Cons.prems trans have "\<forall>z \<in> set ys. c x z \<le> 0"
      by auto
    with True Cons.prems show ?thesis by simp
  next
    case False
    with total have "c y x \<le> 0" by blast
    with False Cons show ?thesis
      by (simp add: sort_insert_set)
  qed
qed

lemma array_sort_sorted:
  assumes "\<forall>a b. c a b \<le> 0 \<or> c b a \<le> 0"
    and "\<forall>a b d. c a b \<le> 0 \<longrightarrow> c b d \<le> 0 \<longrightarrow> c a d \<le> (0::int)"
  shows "sorted_wrt (\<lambda>a b. c a b \<le> 0) (array_sort c xs)"
  by (induction xs) (simp_all add: sort_insert_sorted [OF assms])

lemma sort_insert_filter:
  assumes "\<forall>y. P x \<and> P y \<longrightarrow> c x y \<le> 0"
  shows "filter P (sort_insert c x ys) = (if P x then x # filter P ys else filter P ys)"
  using assms by (induction ys) auto

lemma array_sort_stable:
  assumes "\<forall>x y. P x \<and> P y \<longrightarrow> c x y \<le> 0"
  shows "filter P (array_sort c xs) = filter P xs"
proof (induction xs)
  case Nil
  then show ?case by simp
next
  case (Cons x xs)
  from assms have "\<forall>y. P x \<and> P y \<longrightarrow> c x y \<le> 0" by blast
  from sort_insert_filter [of P x c, OF this] Cons.IH show ?case by simp
qed

text \<open>
  C8. \<open>String.localeCompare\<close> is the host's; take any comparison that is total and
  transitive, as a collation is. Then after \<open>loadChromeBookmarks\<close> the folder list is
  ordered by title under that comparison and is a rearrangement of what the traversal
  produced. The sort is stable: the folders with any one title stand in the order the
  traversal gave them, and so do the folders whose titles the comparison cannot tell
  from a given one.
\<close>

theorem folders_sorted_by_title_stably:
  assumes "\<forall>a b. localeCompare a b \<le> 0 \<or> localeCompare b a \<le> 0"
    and "\<forall>a b c. localeCompare a b \<le> 0 \<longrightarrow> localeCompare b c \<le> 0 \<longrightarrow> localeCompare a c \<le> 0"
  shows "sorted_wrt (\<lambda>f g. localeCompare (fd_title f) (fd_title g) \<le> 0)
           (folders (loadChromeBookmarks localeCompare (Some forest) s))
       \<and> mset (folders (loadChromeBookmarks localeCompare (Some forest) s)) =
           mset (traversal_folders forest s)
       \<and> (\<forall>t. filter (\<lambda>f. fd_title f = t)
                 (folders (loadChromeBookmarks localeCompare (Some forest) s)) =
               filter (\<lambda>f. fd_title f = t) (traversal_folders forest s))
       \<and> (\<forall>t. filter (\<lambda>f. localeCompare (fd_title f) t \<le> 0 \<and> localeCompare t (fd_title f) \<le> 0)
                 (folders (loadChromeBookmarks localeCompare (Some forest) s)) =
               filter (\<lambda>f. localeCompare (fd_title f) t \<le> 0 \<and> localeCompare t (fd_title f) \<le> 0)
                 (traversal_folders forest s))"
proof -
  let ?c = "\<lambda>f g. localeCompare (fd_title f) (fd_title g)"
  have total: "\<forall>f g. ?c f g \<le> 0 \<or> ?c g f \<le> 0"
    using assms(1) by blast
  have trans: "\<forall>f g h. ?c f g \<le> 0 \<longrightarrow> ?c g h \<le> 0 \<longrightarrow> ?c f h \<le> 0"
    using assms(2) by blast
  have ordered: "sorted_wrt (\<lambda>f g. ?c f g \<le> 0)
      (folders (loadChromeBookmarks localeCompare (Some forest) s))"
    unfolding load_folders using total trans by (rule array_sort_sorted)
  have perm: "mset (folders (loadChromeBookmarks localeCompare (Some forest) s)) =
      mset (traversal_folders forest s)"
    by (simp add: load_folders array_sort_mset)
  have same_title: "filter (\<lambda>f. fd_title f = t)
        (folders (loadChromeBookmarks localeCompare (Some forest) s)) =
      filter (\<lambda>f. fd_title f = t) (traversal_folders forest s)" for t
  proof -
    from assms(1) have "localeCompare t t \<le> 0" by blast
    then have "\<forall>f g. fd_title f = t \<and> fd_title g = t \<longrightarrow> ?c f g \<le> 0" by simp
    then show ?thesis
      unfolding load_folders by (rule array_sort_stable)
  qed
  have tied: "filter (\<lambda>f. localeCompare (fd_title f) t \<le> 0 \<and> localeCompare t (fd_title f) \<le> 0)
        (folders (loadChromeBookmarks localeCompare (Some forest) s)) =
      filter (\<lambda>f. localeCompare (fd_title f) t \<le> 0 \<and> localeCompare t (fd_title f) \<le> 0)
        (traversal_folders forest s)" for t
  proof -
    from assms(2)
    have "\<forall>f g. (localeCompare (fd_title f) t \<le> 0 \<and> localeCompare t (fd_title f) \<le> 0) \<and>
        (localeCompare (fd_title g) t \<le> 0 \<and> localeCompare t (fd_title g) \<le> 0)
        \<longrightarrow> ?c f g \<le> 0"
      by blast
    then show ?thesis
      unfolding load_folders by (rule array_sort_stable)
  qed
  from ordered perm same_title tied show ?thesis by blast
qed

text \<open>
  Folders titled \<open>bb\<close>, \<open>a\<close>, \<open>cc\<close>, \<open>a\<close> with the ids 10 to 13, compared by length of
  title: the two \<open>a\<close> come first, 11 before 13, then \<open>bb\<close> before \<open>cc\<close>, which tie.
\<close>

theorem folders_sorted_by_title_stably_example:
  "(\<forall>a b. compare_length a b \<le> 0 \<or> compare_length b a \<le> 0)
 \<and> (\<forall>a b c. 0 < compare_length a b \<or> 0 < compare_length b c \<or> compare_length a c \<le> 0)
 \<and> map fd_id (traversal_folders tie_tree empty_manager) = [''10'', ''11'', ''12'', ''13'']
 \<and> map fd_id (folders (loadChromeBookmarks compare_length (Some tie_tree) empty_manager))
     = [''11'', ''13'', ''10'', ''12'']
 \<and> map fd_id (filter (\<lambda>f. fd_title f = ''a'')
       (folders (loadChromeBookmarks compare_length (Some tie_tree) empty_manager)))
     = [''11'', ''13'']
 \<and> sorted_wrt (\<lambda>f g. compare_length (fd_title f) (fd_title g) \<le> 0)
       (folders (loadChromeBookmarks compare_length (Some tie_tree) empty_manager))"
proof -
  let ?out = "folders (loadChromeBookmarks compare_length (Some tie_tree) empty_manager)"
  have total: "\<forall>a b. compare_length a b \<le> 0 \<or> compare_length b a \<le> 0"
    by (auto simp: compare_length_def)
  have trans: "\<forall>a b c. compare_length a b \<le> 0 \<longrightarrow> compare_length b c \<le> 0 \<longrightarrow>
      compare_length a c \<le> 0"
    by (auto simp: compare_length_def)
  have trav: "map fd_id (traversal_folders tie_tree empty_manager) =
      [''10'', ''11'', ''12'', ''13'']"
    by (simp add: traversal_folders_eq tie_tree_def folder_def leaf_def emitted_def
        is_folder_def reserved_root_ids_def folder_of_def)
  have out: "map fd_id ?out = [''11'', ''13'', ''10'', ''12'']"
    by (simp add: load_folders traversal_folders_eq tie_tree_def folder_def leaf_def emitted_def
        is_folder_def reserved_root_ids_def folder_of_def compare_length_def)
  note inst = folders_sorted_by_title_stably [OF total trans, of tie_tree empty_manager]
  from inst have ordered: "sorted_wrt (\<lambda>f g. compare_length (fd_title f) (fd_title g) \<le> 0) ?out"
    by blast
  from inst have "filter (\<lambda>f. fd_title f = ''a'') ?out =
      filter (\<lambda>f. fd_title f = ''a'') (traversal_folders tie_tree empty_manager)"
    by blast
  then have "map fd_id (filter (\<lambda>f. fd_title f = ''a'') ?out) = [''11'', ''13'']"
    by (simp add: traversal_folders_eq tie_tree_def folder_def leaf_def emitted_def
        is_folder_def reserved_root_ids_def folder_of_def)
  moreover have "\<forall>a b c. 0 < compare_length a b \<or> 0 < compare_length b c \<or>
      compare_length a c \<le> 0"
    by (auto simp: compare_length_def)
  ultimately show ?thesis
    using total trav out ordered by blast
qed

end
